theory Spec2Isabelle
  imports Main "HOL-Library.Sublist" "HOL-Library.AList" "HOL-Library.Multiset"
begin

section \<open>JavaScript strings\<close>

text \<open>
  A JavaScript string is a sequence of code units and \<open>.length\<close> counts them; the model
  is \<^typ>\<open>string\<close>, one \<^typ>\<open>char\<close> per code unit, which covers every string whose code
  units are below 256 (Latin-1). On that range \<open>toLowerCase\<close> maps \<open>A\<close>..\<open>Z\<close> and
  U+00C0..U+00DE (without the multiplication sign U+00D7) to the code unit 32 above and
  leaves every other code unit alone.
\<close>

definition toLowerChar :: "char \<Rightarrow> char" where
  "toLowerChar c =
     (let n = (of_char c :: nat)
      in if (65 \<le> n \<and> n \<le> 90) \<or> (192 \<le> n \<and> n \<le> 222 \<and> n \<noteq> 215)
         then char_of (n + 32) else c)"

definition toLowerCase :: "string \<Rightarrow> string" where
  "toLowerCase s = map toLowerChar s"

text \<open>\<open>s.startsWith(t)\<close>, \<open>s.endsWith(t)\<close> and \<open>s.includes(t)\<close>.\<close>

definition startsWith :: "string \<Rightarrow> string \<Rightarrow> bool" where
  "startsWith s t = (take (length t) s = t)"

definition endsWith :: "string \<Rightarrow> string \<Rightarrow> bool" where
  "endsWith s t = (length t \<le> length s \<and> drop (length s - length t) s = t)"

fun str_includes :: "string \<Rightarrow> string \<Rightarrow> bool" where
  "str_includes [] t = (t = [])"
| "str_includes (c # s) t = (startsWith (c # s) t \<or> str_includes s t)"

text \<open>
  \<open>s.replace(pat, rep)\<close> with a string pattern replaces the first occurrence of
  \<open>pat\<close> only (the replacement strings used below contain no \<open>$\<close>).
\<close>

fun replace_first :: "string \<Rightarrow> string \<Rightarrow> string \<Rightarrow> string" where
  "replace_first [] pat rep = (if pat = [] then rep else [])"
| "replace_first (c # s) pat rep =
     (if startsWith (c # s) pat then rep @ drop (length pat) (c # s)
      else c # replace_first s pat rep)"

section \<open>Path pattern matcher (promptDataSelector.js)\<close>

text \<open>\<open>path.replace(/\\/g, '/').toLowerCase()\<close>: every backslash becomes a slash.\<close>

definition normalizePath :: "string \<Rightarrow> string" where
  "normalizePath path = toLowerCase (map (\<lambda>c. if c = CHR 0x5C then CHR ''/'' else c) path)"

definition matchesPattern :: "string \<Rightarrow> string \<Rightarrow> bool" where
  "matchesPattern filePath pattern =
     (let normalizedFile = normalizePath filePath;
          normalizedPattern = normalizePath pattern
      in if endsWith normalizedPattern ''.json'' then
           (let basePattern = replace_first normalizedPattern ''.json'' '''';
                jsonMatch = (normalizedFile = normalizedPattern
                             \<or> endsWith normalizedFile (''/'' @ normalizedPattern));
                htmlMatch = (normalizedFile = basePattern @ ''.html''
                             \<or> endsWith normalizedFile (''/'' @ basePattern @ ''.html''))
            in jsonMatch \<or> htmlMatch)
         else startsWith normalizedFile (normalizedPattern @ ''/'')
              \<or> str_includes normalizedFile (''/'' @ normalizedPattern @ ''/''))"

section \<open>File selector (promptDataSelector.js)\<close>

text \<open>
  A JavaScript object that maps file names to contents is the list of its entries in
  \<open>Object.entries\<close> order; its keys are pairwise distinct. The extractor stores the
  decoded text of each archive entry, so every content is a string (possibly empty).
\<close>

type_synonym files = "(string \<times> string) list"

text \<open>
  \<open>prompt_config.json\<close>: a profile has a \<open>name\<close> and possibly a \<open>data\<close> list;
  \<open>loadPromptConfig\<close> yields \<open>null\<close> (\<open>None\<close>) when the file cannot be fetched or
  parsed.
\<close>

record promptSettings =
  name :: string
  data :: "string list option"

record promptConfig =
  prompts :: "promptSettings list option"

record selection =
  selectedData :: files
  usedFiles :: "string list"
  configFound :: bool
  totalFiles :: nat
  selectedCount :: "nat option"
  patterns :: "string list option"

text \<open>\<open>!v\<close> is false exactly for a defined, non-empty string.\<close>

definition truthy :: "string option \<Rightarrow> bool" where
  "truthy v = (case v of None \<Rightarrow> False | Some s \<Rightarrow> s \<noteq> [])"

text \<open>
  The body of \<open>matchingFiles.forEach\<close>. \<open>file\<close> is a key of \<open>extractedData\<close>, so the
  lookup \<open>extractedData[file]\<close> is defined; the other branch is never taken.
\<close>

definition selectFile :: "files \<Rightarrow> string \<Rightarrow> files \<times> string list \<Rightarrow> files \<times> string list" where
  "selectFile extractedData file st =
     (case st of (selected, used) \<Rightarrow>
        if \<not> truthy (map_of selected file) then
          (case map_of extractedData file of
             Some content \<Rightarrow> (AList.update file content selected, used @ [file])
           | None \<Rightarrow> (selected, used @ [file]))
        else (selected, used))"

definition processPattern :: "files \<Rightarrow> string \<Rightarrow> files \<times> string list \<Rightarrow> files \<times> string list" where
  "processPattern extractedData pattern st =
     (let availableFiles = map fst extractedData;
          matchingFiles = filter (\<lambda>filePath. matchesPattern filePath pattern) availableFiles
      in if length matchingFiles > 0 then fold (selectFile extractedData) matchingFiles st
         else st)"

definition useAllData :: "files \<Rightarrow> selection" where
  "useAllData extractedData =
     \<lparr>selectedData = extractedData, usedFiles = map fst extractedData, configFound = False,
      totalFiles = length (map fst extractedData), selectedCount = None, patterns = None\<rparr>"

text \<open>The first argument is what \<open>loadPromptConfig()\<close> returned.\<close>

definition selectDataForPrompt :: "promptConfig option \<Rightarrow> string \<Rightarrow> files \<Rightarrow> selection" where
  "selectDataForPrompt loaded promptName extractedData =
     (case loaded of
        None \<Rightarrow> useAllData extractedData
      | Some promptConfig \<Rightarrow>
          (case prompts promptConfig of
             None \<Rightarrow> useAllData extractedData
           | Some profiles \<Rightarrow>
               (case find (\<lambda>p. name p = promptName) profiles of
                  None \<Rightarrow> useAllData extractedData
                | Some promptSettings \<Rightarrow>
                    (case data promptSettings of
                       None \<Rightarrow> useAllData extractedData
                     | Some pats \<Rightarrow>
                         (case fold (processPattern extractedData) pats ([], []) of
                            (selected, used) \<Rightarrow>
                              \<lparr>selectedData = selected, usedFiles = used,
                               configFound = True,
                               totalFiles = length (map fst extractedData),
                               selectedCount = Some (length used),
                               patterns = Some pats\<rparr>)))))"

section \<open>Chunker (profileAnalyzer.js, processJsonFiles)\<close>

text \<open>
  The fields the constructor sets that the modelled methods read, and \<open>this.prompt\<close>
  (\<open>None\<close> is \<open>null\<close>).
\<close>

record ProfileAnalyzer =
  MAX_CHUNK_SIZE :: nat
  MAX_FILES_PER_CHUNK :: nat
  MAX_RETRIES :: nat
  RETRY_DELAY :: nat
  prompt :: "string option"

definition ProfileAnalyzer_new :: ProfileAnalyzer where
  "ProfileAnalyzer_new =
     \<lparr>MAX_CHUNK_SIZE = 3500000, MAX_FILES_PER_CHUNK = 100, MAX_RETRIES = 3,
      RETRY_DELAY = 2000, prompt = None\<rparr>"

definition truncationNotice :: string where
  "truncationNotice = ''\<newline>\<newline>[Content truncated due to length...]''"

text \<open>
  \<open>JSON.parse\<close> followed by \<open>JSON.stringify(_, null, 2)\<close> is a built-in of the language:
  the parameter \<open>json\<close> gives the re-indented text, or \<open>None\<close> when \<open>JSON.parse\<close> raises.
\<close>

definition formatContent :: "(string \<Rightarrow> string option) \<Rightarrow> string \<Rightarrow> string \<Rightarrow> string option" where
  "formatContent json filename content =
     (if endsWith (toLowerCase filename) ''.json'' then json content
      else if endsWith (toLowerCase filename) ''.html'' then
        Some (if length content > 50000 then take 50000 content @ truncationNotice
              else content)
      else Some content)"

definition formatEntry :: "(string \<Rightarrow> string option) \<Rightarrow> string \<Rightarrow> string \<Rightarrow> string option" where
  "formatEntry json filename content =
     (case formatContent json filename content of
        None \<Rightarrow> None
      | Some formattedContent \<Rightarrow>
          Some (''\<newline>\<newline>### FILE: '' @ filename @ ''\<newline>\<newline>'' @ formattedContent))"

record chunker =
  chunks :: "string list"
  currentChunk :: string
  filesInCurrentChunk :: nat

text \<open>
  One iteration of the loop over the sorted entries. An exception of \<open>JSON.parse\<close> is
  caught inside the iteration: the file is logged and skipped.
\<close>

definition addFile :: "ProfileAnalyzer \<Rightarrow> (string \<Rightarrow> string option) \<Rightarrow> string \<times> string \<Rightarrow> chunker \<Rightarrow> chunker" where
  "addFile this json entry st =
     (case entry of (filename, content) \<Rightarrow>
        (case formatEntry json filename content of
           None \<Rightarrow> st
         | Some fileEntry \<Rightarrow>
             if length (currentChunk st) + length fileEntry > MAX_CHUNK_SIZE this
                \<or> (filesInCurrentChunk st \<ge> MAX_FILES_PER_CHUNK this \<and> length (currentChunk st) > 0)
             then \<lparr>chunks = chunks st @ [currentChunk st], currentChunk = fileEntry,
                   filesInCurrentChunk = 1\<rparr>
             else \<lparr>chunks = chunks st, currentChunk = currentChunk st @ fileEntry,
                   filesInCurrentChunk = filesInCurrentChunk st + 1\<rparr>))"

text \<open>\<open>Array.prototype.sort\<close> is stable, and so is \<^const>\<open>sort_key\<close>.\<close>

definition sortedEntries :: "files \<Rightarrow> files" where
  "sortedEntries jsonFiles = sort_key (\<lambda>(filename, content). length content) jsonFiles"

definition processJsonFiles :: "ProfileAnalyzer \<Rightarrow> (string \<Rightarrow> string option) \<Rightarrow> files \<Rightarrow> string list" where
  "processJsonFiles this json jsonFiles =
     (let st = fold (addFile this json) (sortedEntries jsonFiles)
                 \<lparr>chunks = [], currentChunk = [], filesInCurrentChunk = 0\<rparr>
      in if length (currentChunk st) > 0 then chunks st @ [currentChunk st] else chunks st)"

text \<open>The formatted entries of the files that are not skipped, in packing order.\<close>

definition fileEntries :: "(string \<Rightarrow> string option) \<Rightarrow> files \<Rightarrow> string list" where
  "fileEntries json jsonFiles =
     List.map_filter (\<lambda>(filename, content). formatEntry json filename content) jsonFiles"

text \<open>
  The built-in on a few sample texts, for evaluating the chunker on concrete inputs:
  \<open>1\<close>, \<open>{}\<close> and \<open>[]\<close> are re-indented to themselves, and \<open>JSON.parse\<close> raises a
  \<open>SyntaxError\<close> on \<open>{\<close> and on the empty text. It is used on these texts only.
\<close>

definition jsonSample :: "string \<Rightarrow> string option" where
  "jsonSample content =
     (if content = ''1'' \<or> content = ''{}'' \<or> content = ''[]'' then Some content else None)"

section \<open>Analysis driver (profileAnalyzer.js, generateProfile and analyzeProfile)\<close>

text \<open>
  What a \<open>throw\<close> carries: an \<open>Error\<close> object with its message, or \<open>null\<close> (the
  initial value of \<open>lastError\<close>).
\<close>

datatype thrown = Error string | Null

text \<open>
  The outcome of one \<open>fetch\<close> attempt, as far as \<open>generateProfile\<close> looks at it:
  \<^item> \<open>Throws msg\<close>: \<open>fetch\<close>, \<open>response.json()\<close> or reading
    \<open>choices[0].message.content\<close> raises an error with this message;
  \<^item> \<open>NotOk status details\<close>: \<open>response.ok\<close> is false; \<open>details\<close> is the JSON text of
    the error body, or the status text when the body is not JSON;
  \<^item> \<open>NoChoices\<close>: a success response without \<open>choices\<close>, or with an empty list;
  \<^item> \<open>Choices text\<close>: a success response whose first choice carries \<open>text\<close>.
\<close>

datatype response = Throws string | NotOk string string | NoChoices | Choices string

text \<open>
  The environment of a run: what \<open>loadPrompt()\<close> does when the call for chunk \<open>i\<close>
  makes it (the message of the error it raises, or the prompt text), and the response to
  attempt \<open>k\<close> of chunk \<open>i\<close>. The request body does not influence the control flow and is
  not modelled.
\<close>

record env =
  loadPromptOutcome :: "nat \<Rightarrow> string + string"
  fetchOutcome :: "nat \<Rightarrow> nat \<Rightarrow> response"

text \<open>The body of the \<open>try\<close> block of one attempt.\<close>

fun attempt :: "response \<Rightarrow> thrown + string" where
  "attempt (Throws msg) = Inl (Error msg)"
| "attempt (NotOk status details) =
     Inl (Error (''OpenRouter API error: Status: '' @ status @ '' - '' @ details))"
| "attempt NoChoices = Inl (Error ''No choices returned from OpenRouter API'')"
| "attempt (Choices generatedText) = Inr generatedText"

text \<open>
  What one call of \<open>generateProfile\<close> did: its result (\<open>Inl\<close> what it threw), the number
  of \<open>fetch\<close> calls, and the arguments of its \<open>sleep\<close> calls in order (milliseconds).
\<close>

record submission =
  outcome :: "thrown + string"
  attempts :: nat
  delays :: "nat list"

text \<open>
  The retry loop \<open>while (retries <= this.MAX_RETRIES)\<close>; every iteration makes one
  \<open>fetch\<close>, so \<open>retries\<close> is also the number of attempts made so far. The last branch
  is the \<open>throw lastError\<close> after the loop.
\<close>

function retryLoop :: "ProfileAnalyzer \<Rightarrow> (nat \<Rightarrow> response) \<Rightarrow> nat \<Rightarrow> thrown option \<Rightarrow> nat list \<Rightarrow> submission" where
  "retryLoop this net retries lastError slept =
     (if retries \<le> MAX_RETRIES this then
        (case attempt (net retries) of
           Inr generatedText \<Rightarrow>
             \<lparr>outcome = Inr generatedText, attempts = retries + 1, delays = slept\<rparr>
         | Inl err \<Rightarrow>
             if retries + 1 \<le> MAX_RETRIES this then
               retryLoop this net (retries + 1) (Some err)
                 (slept @ [RETRY_DELAY this * 2 ^ (retries + 1 - 1)])
             else \<lparr>outcome = Inl err, attempts = retries + 1, delays = slept\<rparr>)
      else \<lparr>outcome = Inl (case lastError of None \<Rightarrow> Null | Some err \<Rightarrow> err),
            attempts = retries, delays = slept\<rparr>)"
  by pat_completeness auto
termination
  by (relation "measure (\<lambda>(this, net, retries, lastError, slept). MAX_RETRIES this + 1 - retries)") auto

declare retryLoop.simps [simp del]

text \<open>
  \<open>generateProfile(data, chunkIndex, totalChunks)\<close>: the prompt is loaded first when
  \<open>this.prompt\<close> is \<open>null\<close> or empty; an error of \<open>loadPrompt\<close> leaves the method before
  any request is made. The result comes with the updated object.
\<close>

definition generateProfile :: "ProfileAnalyzer \<Rightarrow> env \<Rightarrow> string \<Rightarrow> nat \<Rightarrow> nat \<Rightarrow> submission \<times> ProfileAnalyzer" where
  "generateProfile this e chunkData chunkIndex totalChunks =
     (if \<not> truthy (prompt this) then
        (case loadPromptOutcome e chunkIndex of
           Inl msg \<Rightarrow> (\<lparr>outcome = Inl (Error msg), attempts = 0, delays = []\<rparr>, this)
         | Inr promptContent \<Rightarrow>
             (retryLoop this (fetchOutcome e chunkIndex) 0 None [],
              this\<lparr>prompt := Some promptContent\<rparr>))
      else (retryLoop this (fetchOutcome e chunkIndex) 0 None [], this))"

text \<open>
  The state of the multi-chunk loop of \<open>analyzeProfile\<close>, with the object and the list of
  the submissions made so far.
\<close>

record run =
  combinedProfile :: string
  failedChunks :: "nat list"
  analyzer :: ProfileAnalyzer
  submissions :: "submission list"

definition chunkStep :: "env \<Rightarrow> string list \<Rightarrow> nat \<Rightarrow> run \<Rightarrow> run" where
  "chunkStep e dataChunks i st =
     (case generateProfile (analyzer st) e (dataChunks ! i) i (length dataChunks) of
        (sub, this') \<Rightarrow>
          (case outcome sub of
             Inr chunkProfile \<Rightarrow>
               \<lparr>combinedProfile =
                  (if i = 0 then chunkProfile
                   else if i = length dataChunks - 1 then chunkProfile
                   else combinedProfile st),
                failedChunks = failedChunks st,
                analyzer = this', submissions = submissions st @ [sub]\<rparr>
           | Inl chunkError \<Rightarrow>
               \<lparr>combinedProfile = combinedProfile st,
                failedChunks = failedChunks st @ [i + 1],
                analyzer = this', submissions = submissions st @ [sub]\<rparr>))"

text \<open>
  \<open>s.split(/\s+/).length\<close> is one more than the number of maximal runs of white space;
  below 256 the white-space code units are 9 to 13, 32 and 160.
\<close>

definition isWhiteSpace :: "char \<Rightarrow> bool" where
  "isWhiteSpace c = (let n = (of_char c :: nat) in (9 \<le> n \<and> n \<le> 13) \<or> n = 32 \<or> n = 160)"

fun whiteSpaceRuns :: "bool \<Rightarrow> string \<Rightarrow> nat" where
  "whiteSpaceRuns inRun [] = 0"
| "whiteSpaceRuns inRun (c # s) =
     (if isWhiteSpace c then (if inRun then 0 else 1) + whiteSpaceRuns True s
      else whiteSpaceRuns False s)"

definition wordCount :: "string \<Rightarrow> nat" where
  "wordCount s = whiteSpaceRuns False s + 1"

text \<open>The returned object; \<open>duration\<close> is wall-clock time and is left out.\<close>

record stats =
  filesProcessed :: nat
  chunksProcessed :: nat
  chunksSuccessful :: int
  chunksFailed :: "nat list"
  profileLength :: nat
  wordCountOf :: nat

record analysis =
  success :: bool
  profile :: "string option"
  error :: "string option"
  stats :: "stats option"

definition analysisOf :: "files \<Rightarrow> string list \<Rightarrow> string \<Rightarrow> nat list \<Rightarrow> analysis" where
  "analysisOf jsonFiles dataChunks combined failed =
     \<lparr>success = (length failed = 0 \<or> length combined > 0),
      profile = Some combined,
      error = None,
      stats = Some \<lparr>filesProcessed = length (map fst jsonFiles),
                    chunksProcessed = length dataChunks,
                    chunksSuccessful = int (length dataChunks) - int (length failed),
                    chunksFailed = failed,
                    profileLength = length combined,
                    wordCountOf = wordCount combined\<rparr>\<rparr>"

text \<open>
  The \<open>try\<close> block of \<open>analyzeProfile\<close>: \<open>Inl\<close> is what reaches the \<open>catch\<close>. The second
  component lists the submissions made, in order.
\<close>

definition analyzeProfile_try :: "ProfileAnalyzer \<Rightarrow> env \<Rightarrow> (string \<Rightarrow> string option) \<Rightarrow> files \<Rightarrow> (thrown + analysis) \<times> submission list" where
  "analyzeProfile_try this e json jsonFiles =
     (let dataChunks = processJsonFiles this json jsonFiles
      in if length dataChunks = 0 then
           (Inl (Error ''No valid data chunks to process''), [])
         else if length dataChunks = 1 then
           (case generateProfile this e (dataChunks ! 0) 0 1 of
              (sub, this') \<Rightarrow>
                (case outcome sub of
                   Inl err \<Rightarrow> (Inl err, [sub])
                 | Inr generatedText \<Rightarrow>
                     (Inr (analysisOf jsonFiles dataChunks generatedText []), [sub])))
         else
           (let st = fold (chunkStep e dataChunks) [0..<length dataChunks]
                       \<lparr>combinedProfile = [], failedChunks = [], analyzer = this,
                        submissions = []\<rparr>
            in (Inr (analysisOf jsonFiles dataChunks (combinedProfile st) (failedChunks st)),
                submissions st)))"

text \<open>
  \<open>analyzeProfile\<close>: the \<open>catch\<close> reads \<open>error.message\<close>, which itself raises a
  \<open>TypeError\<close> when what was thrown is \<open>null\<close>; \<open>Inl\<close> is a rejected promise.
\<close>

definition analyzeProfile :: "ProfileAnalyzer \<Rightarrow> env \<Rightarrow> (string \<Rightarrow> string option) \<Rightarrow> files \<Rightarrow> (thrown + analysis) \<times> submission list" where
  "analyzeProfile this e json jsonFiles =
     (case analyzeProfile_try this e json jsonFiles of
        (Inr result, subs) \<Rightarrow> (Inr result, subs)
      | (Inl (Error msg), subs) \<Rightarrow>
          (Inr \<lparr>success = False, profile = None, error = Some msg, stats = None\<rparr>, subs)
      | (Inl Null, subs) \<Rightarrow>
          (Inl (Error ''Cannot read properties of null (reading 'message')''), subs))"

text \<open>Path separators before normalisation: the slash and the backslash.\<close>

definition isSeparator :: "char \<Rightarrow> bool" where
  "isSeparator c = (c = CHR ''/'' \<or> c = CHR 0x5C)"

section \<open>Notions of the specification and sample inputs\<close>

text \<open>A success response without choices, recast as an attempt that raises its error.\<close>

fun choicesMissingAsThrow :: "response \<Rightarrow> response" where
  "choicesMissingAsThrow NoChoices = Throws ''No choices returned from OpenRouter API''"
| "choicesMissingAsThrow r = r"



text \<open>
  Three small files packed one per chunk, and three environments: the prompt always
  loads; the network fails for the middle chunk only, for the last chunk only, or answers
  every request without choices and finally with status 500.
\<close>

definition threeFiles :: files where
  "threeFiles = [(''a.txt'', ''x''), (''b.txt'', ''yy''), (''c.txt'', ''zzz'')]"

definition oneFilePerChunk :: ProfileAnalyzer where
  "oneFilePerChunk = ProfileAnalyzer_new\<lparr>MAX_FILES_PER_CHUNK := 1\<rparr>"


definition lastChunkFails :: env where
  "lastChunkFails =
     \<lparr>loadPromptOutcome = (\<lambda>i. Inr ''PROMPT''),
      fetchOutcome = (\<lambda>i k. if i = 0 then Choices ''A''
                             else if i = 1 then Choices ''B''
                             else Throws ''Failed to fetch'')\<rparr>"

definition serverErrors :: env where
  "serverErrors =
     \<lparr>loadPromptOutcome = (\<lambda>i. Inr ''PROMPT''),
      fetchOutcome = (\<lambda>i k. if k < 3 then NoChoices else NotOk ''500'' ''boom'')\<rparr>"

section \<open>Strings: basic facts\<close>

lemma startsWith_prefix: "startsWith s t \<longleftrightarrow> prefix t s"
  by (metis append_eq_conv_conj prefix_def startsWith_def take_is_prefix)

lemma endsWith_suffix: "endsWith s t \<longleftrightarrow> suffix t s"
proof
  assume "endsWith s t"
  then show "suffix t s"
    by (metis endsWith_def suffix_drop)
next
  assume "suffix t s"
  then obtain u where "s = u @ t"
    by (auto simp: suffix_def)
  then show "endsWith s t"
    by (simp add: endsWith_def)
qed

lemma str_includes_sublist: "str_includes s t \<longleftrightarrow> sublist t s"
proof (induction s)
  case Nil
  show ?case by simp
next
  case (Cons c s)
  show ?case
    by (simp add: Cons.IH startsWith_prefix sublist_Cons_right)
qed

section \<open>The matcher\<close>

lemma toLowerChar_slash_code: "of_char (toLowerChar c) = (47::nat) \<longleftrightarrow> of_char c = (47::nat)"
  by (auto simp: toLowerChar_def Let_def)

lemma toLowerChar_slash: "toLowerChar c = CHR ''/'' \<longleftrightarrow> c = CHR ''/''"
proof -
  have "toLowerChar c = CHR ''/'' \<longleftrightarrow> (of_char (toLowerChar c) :: nat) = of_char (CHR ''/'')"
    by (simp only: of_char_eq_iff)
  also have "\<dots> \<longleftrightarrow> of_char c = (47::nat)"
    by (simp add: toLowerChar_slash_code)
  also have "\<dots> \<longleftrightarrow> (of_char c :: nat) = of_char (CHR ''/'')"
    by simp
  also have "\<dots> \<longleftrightarrow> c = CHR ''/''"
    by (simp only: of_char_eq_iff)
  finally show ?thesis .
qed

lemma normalizePath_map:
  "normalizePath path = map (\<lambda>c. toLowerChar (if c = CHR 0x5C then CHR ''/'' else c)) path"
  by (simp add: normalizePath_def toLowerCase_def)

lemma normalize_char_slash:
  "toLowerChar (if c = CHR 0x5C then CHR ''/'' else c) = CHR ''/'' \<longleftrightarrow> isSeparator c"
  by (auto simp: toLowerChar_slash isSeparator_def)

lemma normalizePath_Nil: "normalizePath [] = []"
  by (simp add: normalizePath_map)

lemma startsWith_slash:
  "startsWith (normalizePath path) ''/'' \<longleftrightarrow> (\<exists>c rest. path = c # rest \<and> isSeparator c)"
  by (cases path) (auto simp: startsWith_def normalizePath_map normalize_char_slash)

lemma includes_double_slash:
  "str_includes (normalizePath path) ''//'' \<longleftrightarrow>
     (\<exists>pre c d post. path = pre @ c # d # post \<and> isSeparator c \<and> isSeparator d)"
proof
  assume "str_includes (normalizePath path) ''//''"
  then obtain ps ss where "normalizePath path = ps @ ''//'' @ ss"
    by (auto simp: str_includes_sublist sublist_def)
  then obtain us z za zsa where "path = us @ z # za # zsa"
      "toLowerChar (if z = CHR 0x5C then CHR ''/'' else z) = CHR ''/''"
      "toLowerChar (if za = CHR 0x5C then CHR ''/'' else za) = CHR ''/''"
    by (auto simp: normalizePath_map map_eq_append_conv map_eq_Cons_conv)
  then show "\<exists>pre c d post. path = pre @ c # d # post \<and> isSeparator c \<and> isSeparator d"
    by (auto simp: normalize_char_slash)
next
  assume "\<exists>pre c d post. path = pre @ c # d # post \<and> isSeparator c \<and> isSeparator d"
  then obtain pre c d post where p: "path = pre @ c # d # post" "isSeparator c" "isSeparator d"
    by blast
  have "normalizePath path = normalizePath pre @ ''//'' @ normalizePath post"
    using p by (simp add: normalizePath_map normalize_char_slash)
  then show "str_includes (normalizePath path) ''//''"
    unfolding str_includes_sublist sublist_def by blast
qed

text \<open>
  C3. A pattern that ends in \<open>.json\<close> is meant to match the \<open>.html\<close> rendering of the same
  record as well. \<open>replace('.json', '')\<close> removes the first \<open>.json\<close> of the pattern,
  not the trailing one: for the pattern \<open>data.json_export/profile.json\<close> the \<open>.html\<close>
  name that is compared is \<open>data_export/profile.json.html\<close>, so the \<open>.json\<close> file
  matches and its \<open>.html\<close> sibling does not.
\<close>

theorem matchesPattern_html_sibling_missed:
  "matchesPattern ''data.json_export/profile.json'' ''data.json_export/profile.json'' = True
   \<and> matchesPattern ''data.json_export/profile.html'' ''data.json_export/profile.json'' = False"
  by code_simp

text \<open>
  C8, as stated: the empty pattern matches no path. It fails for a path that starts with
  a separator.
\<close>

theorem matchesPattern_empty_pattern_counterexample:
  "matchesPattern ''/data/a.json'' [] = True"
  by code_simp

text \<open>
  C8, amended. With the empty pattern the folder test compares against \<open>/\<close> and \<open>//\<close>:
  the empty pattern matches exactly the paths that start with a separator (slash or
  backslash) or contain two adjacent separators, and no other path.
\<close>

theorem matchesPattern_empty_pattern:
  "matchesPattern path [] \<longleftrightarrow>
     (\<exists>c rest. path = c # rest \<and> isSeparator c)
     \<or> (\<exists>pre c d post. path = pre @ c # d # post \<and> isSeparator c \<and> isSeparator d)"
proof -
  have "\<not> endsWith [] ''.json''"
    by (simp add: endsWith_def)
  then have "matchesPattern path [] \<longleftrightarrow>
      startsWith (normalizePath path) ''/'' \<or> str_includes (normalizePath path) ''//''"
    by (simp add: matchesPattern_def normalizePath_Nil Let_def)
  then show ?thesis
    by (simp only: startsWith_slash includes_double_slash)
qed

section \<open>The chunker\<close>

lemma formatEntry_nonempty: "formatEntry json filename content = Some e \<Longrightarrow> e \<noteq> []"
  by (auto simp: formatEntry_def split: option.splits)

lemma fileEntries_Nil: "fileEntries json [] = []"
  by (simp add: fileEntries_def map_filter_simps)

lemma fileEntries_Cons:
  "fileEntries json ((filename, content) # files) =
     (case formatEntry json filename content of
        None \<Rightarrow> fileEntries json files
      | Some e \<Rightarrow> e # fileEntries json files)"
  unfolding fileEntries_def by (simp add: map_filter_simps)

lemma addFile_skip:
  "formatEntry json filename content = None \<Longrightarrow> addFile this json (filename, content) st = st"
  by (simp add: addFile_def)

lemma addFile_cases:
  assumes "formatEntry json filename content = Some e"
  shows "(addFile this json (filename, content) st =
            \<lparr>chunks = chunks st @ [currentChunk st], currentChunk = e, filesInCurrentChunk = 1\<rparr>
          \<and> (length (currentChunk st) + length e > MAX_CHUNK_SIZE this
               \<or> (filesInCurrentChunk st \<ge> MAX_FILES_PER_CHUNK this \<and> length (currentChunk st) > 0)))
         \<or> (addFile this json (filename, content) st =
            \<lparr>chunks = chunks st, currentChunk = currentChunk st @ e,
             filesInCurrentChunk = filesInCurrentChunk st + 1\<rparr>
          \<and> length (currentChunk st) + length e \<le> MAX_CHUNK_SIZE this)"
  using assms by (auto simp: addFile_def)

lemma fold_addFile_groups:
  assumes "chunks st = map concat gs" and "currentChunk st = concat g"
    and "g = [] \<longleftrightarrow> currentChunk st = []"
  shows "\<exists>gs' g'. chunks (fold (addFile this json) files st) = map concat gs'
           \<and> currentChunk (fold (addFile this json) files st) = concat g'
           \<and> (g' = [] \<longleftrightarrow> currentChunk (fold (addFile this json) files st) = [])
           \<and> concat gs' @ g' = concat gs @ g @ fileEntries json files"
  using assms
proof (induction files arbitrary: st gs g)
  case Nil
  then show ?case
    by (auto simp: fileEntries_Nil)
next
  case (Cons x files)
  obtain filename content where x: "x = (filename, content)"
    by (cases x)
  show ?case
  proof (cases "formatEntry json filename content")
    case None
    then show ?thesis
      using Cons.IH [OF Cons.prems] by (simp add: x addFile_skip fileEntries_Cons)
  next
    case (Some e)
    have ne: "e \<noteq> []"
      using Some by (rule formatEntry_nonempty)
    let ?st1 = "addFile this json (filename, content) st"
    from addFile_cases [OF Some, of this st]
    have "?st1 = \<lparr>chunks = chunks st @ [currentChunk st], currentChunk = e,
                         filesInCurrentChunk = 1\<rparr>
       \<or> ?st1 = \<lparr>chunks = chunks st, currentChunk = currentChunk st @ e,
                         filesInCurrentChunk = filesInCurrentChunk st + 1\<rparr>"
      by blast
    then have "\<exists>gs1 g1. chunks ?st1 = map concat gs1 \<and> currentChunk ?st1 = concat g1
            \<and> (g1 = [] \<longleftrightarrow> currentChunk ?st1 = [])
            \<and> concat gs1 @ g1 = concat gs @ g @ [e]"
    proof (elim disjE)
      assume a: "?st1 = \<lparr>chunks = chunks st @ [currentChunk st], currentChunk = e,
                         filesInCurrentChunk = 1\<rparr>"
      have "chunks ?st1 = map concat (gs @ [g])" "currentChunk ?st1 = concat [e]"
        "([e] = [] \<longleftrightarrow> currentChunk ?st1 = [])" "concat (gs @ [g]) @ [e] = concat gs @ g @ [e]"
        using Cons.prems ne by (simp_all add: a)
      then show ?thesis by blast
    next
      assume a: "?st1 = \<lparr>chunks = chunks st, currentChunk = currentChunk st @ e,
                         filesInCurrentChunk = filesInCurrentChunk st + 1\<rparr>"
      have "chunks ?st1 = map concat gs" "currentChunk ?st1 = concat (g @ [e])"
        "(g @ [e] = [] \<longleftrightarrow> currentChunk ?st1 = [])" "concat gs @ (g @ [e]) = concat gs @ g @ [e]"
        using Cons.prems ne by (simp_all add: a)
      then show ?thesis by blast
    qed
    then obtain gs1 g1 where s1: "chunks ?st1 = map concat gs1" "currentChunk ?st1 = concat g1"
        "g1 = [] \<longleftrightarrow> currentChunk ?st1 = []" "concat gs1 @ g1 = concat gs @ g @ [e]"
      by blast
    from Cons.IH [OF s1(1) s1(2) s1(3)]
    obtain gs' g' where r: "chunks (fold (addFile this json) files ?st1) = map concat gs'"
       "currentChunk (fold (addFile this json) files ?st1) = concat g'"
       "g' = [] \<longleftrightarrow> currentChunk (fold (addFile this json) files ?st1) = []"
       "concat gs' @ g' = concat gs1 @ g1 @ fileEntries json files"
      by blast
    have unroll: "fold (addFile this json) (x # files) st = fold (addFile this json) files ?st1"
      by (simp add: x)
    have "concat gs' @ g' = concat gs @ g @ fileEntries json (x # files)"
      using r(4) s1(4) by (simp add: x fileEntries_Cons Some)
    with r(1-3) show ?thesis
      unfolding unroll by blast
  qed
qed

lemma mset_fileEntries_sorted:
  "mset (fileEntries json (sortedEntries files)) = mset (fileEntries json files)"
  by (simp add: fileEntries_def sortedEntries_def map_filter_def)

lemma processJsonFiles_groups:
  "\<exists>groups. processJsonFiles this json jsonFiles = map concat groups
      \<and> concat groups = fileEntries json (sortedEntries jsonFiles)"
proof -
  let ?st = "fold (addFile this json) (sortedEntries jsonFiles)
               \<lparr>chunks = [], currentChunk = [], filesInCurrentChunk = 0\<rparr>"
  have "\<exists>gs' g'. chunks ?st = map concat gs' \<and> currentChunk ?st = concat g'
           \<and> (g' = [] \<longleftrightarrow> currentChunk ?st = [])
           \<and> concat gs' @ g' = concat [] @ [] @ fileEntries json (sortedEntries jsonFiles)"
    by (rule fold_addFile_groups) simp_all
  then obtain gs' g' where g: "chunks ?st = map concat gs'" "currentChunk ?st = concat g'"
      "g' = [] \<longleftrightarrow> currentChunk ?st = []"
      "concat gs' @ g' = fileEntries json (sortedEntries jsonFiles)"
    by auto
  show ?thesis
  proof (cases "currentChunk ?st = []")
    case True
    then have "processJsonFiles this json jsonFiles = map concat gs'"
      "concat gs' = fileEntries json (sortedEntries jsonFiles)"
      using g by (simp_all add: processJsonFiles_def)
    then show ?thesis
      by blast
  next
    case False
    then have "processJsonFiles this json jsonFiles = map concat (gs' @ [g'])"
      "concat (gs' @ [g']) = fileEntries json (sortedEntries jsonFiles)"
      using g by (simp_all add: processJsonFiles_def)
    then show ?thesis
      by blast
  qed
qed

lemma fold_addFile_bounded:
  assumes "\<forall>c\<in>set (chunks st). length c \<le> MAX_CHUNK_SIZE this \<or> c \<in> E"
    and "length (currentChunk st) \<le> MAX_CHUNK_SIZE this \<or> currentChunk st \<in> E"
    and "set (fileEntries json files) \<subseteq> E"
  shows "(\<forall>c\<in>set (chunks (fold (addFile this json) files st)).
            length c \<le> MAX_CHUNK_SIZE this \<or> c \<in> E)
         \<and> (length (currentChunk (fold (addFile this json) files st)) \<le> MAX_CHUNK_SIZE this
              \<or> currentChunk (fold (addFile this json) files st) \<in> E)"
  using assms
proof (induction files arbitrary: st)
  case Nil
  then show ?case by simp
next
  case (Cons x files)
  obtain filename content where x: "x = (filename, content)"
    by (cases x)
  let ?st1 = "addFile this json (filename, content) st"
  have rest: "set (fileEntries json files) \<subseteq> E"
    using Cons.prems(3) by (auto simp: x fileEntries_Cons split: option.splits)
  have "(\<forall>c\<in>set (chunks ?st1). length c \<le> MAX_CHUNK_SIZE this \<or> c \<in> E)
        \<and> (length (currentChunk ?st1) \<le> MAX_CHUNK_SIZE this \<or> currentChunk ?st1 \<in> E)"
  proof (cases "formatEntry json filename content")
    case None
    then show ?thesis
      using Cons.prems(1,2) by (simp add: addFile_skip)
  next
    case (Some e)
    have "e \<in> E"
      using Cons.prems(3) by (simp add: x fileEntries_Cons Some)
    then show ?thesis
      using addFile_cases [OF Some, of this st] Cons.prems(1,2) by auto
  qed
  then show ?case
    using Cons.IH [of ?st1] rest by (simp add: x)
qed

lemma fold_addFile_oversized:
  assumes "\<forall>e\<in>S. MAX_CHUNK_SIZE this < length e \<longrightarrow> e \<in> set (chunks st) \<or> e = currentChunk st"
  shows "\<forall>e\<in>S \<union> set (fileEntries json files). MAX_CHUNK_SIZE this < length e \<longrightarrow>
           e \<in> set (chunks (fold (addFile this json) files st))
           \<or> e = currentChunk (fold (addFile this json) files st)"
  using assms
proof (induction files arbitrary: st S)
  case Nil
  then show ?case by (simp add: fileEntries_Nil)
next
  case (Cons x files)
  obtain filename content where x: "x = (filename, content)"
    by (cases x)
  let ?st1 = "addFile this json (filename, content) st"
  show ?case
  proof (cases "formatEntry json filename content")
    case None
    then show ?thesis
      using Cons.IH [OF Cons.prems] by (simp add: x addFile_skip fileEntries_Cons)
  next
    case (Some e)
    have step: "\<forall>e'\<in>insert e S. MAX_CHUNK_SIZE this < length e' \<longrightarrow>
                  e' \<in> set (chunks ?st1) \<or> e' = currentChunk ?st1"
      using addFile_cases [OF Some, of this st] Cons.prems by auto
    have "S \<union> set (fileEntries json (x # files)) = insert e S \<union> set (fileEntries json files)"
      by (simp add: x fileEntries_Cons Some)
    then show ?thesis
      using Cons.IH [OF step] by (simp add: x)
  qed
qed

lemma set_fileEntries_sorted:
  "set (fileEntries json (sortedEntries files)) = set (fileEntries json files)"
  by (metis mset_fileEntries_sorted set_mset_mset)

text \<open>
  C6. Every chunk is at most \<open>MAX_CHUNK_SIZE\<close> long, or it is the entry of a single file
  and that entry alone is longer than \<open>MAX_CHUNK_SIZE\<close>; and every entry that is longer
  than \<open>MAX_CHUNK_SIZE\<close> is a chunk of its own.
\<close>

theorem chunk_size_bound:
  "(\<forall>c\<in>set (processJsonFiles this json jsonFiles).
       length c \<le> MAX_CHUNK_SIZE this
       \<or> (c \<in> set (fileEntries json jsonFiles) \<and> MAX_CHUNK_SIZE this < length c))
   \<and> (\<forall>e\<in>set (fileEntries json jsonFiles).
         MAX_CHUNK_SIZE this < length e \<longrightarrow> e \<in> set (processJsonFiles this json jsonFiles))"
proof -
  let ?st0 = "\<lparr>chunks = [], currentChunk = [], filesInCurrentChunk = 0\<rparr>"
  let ?st = "fold (addFile this json) (sortedEntries jsonFiles) ?st0"
  let ?E = "set (fileEntries json jsonFiles)"
  have result: "set (processJsonFiles this json jsonFiles)
                  = (if currentChunk ?st = [] then set (chunks ?st)
                     else insert (currentChunk ?st) (set (chunks ?st)))"
    by (simp add: processJsonFiles_def Let_def)
  have "(\<forall>c\<in>set (chunks ?st). length c \<le> MAX_CHUNK_SIZE this \<or> c \<in> ?E)
        \<and> (length (currentChunk ?st) \<le> MAX_CHUNK_SIZE this \<or> currentChunk ?st \<in> ?E)"
    by (rule fold_addFile_bounded) (simp_all add: set_fileEntries_sorted)
  then have bound: "\<forall>c\<in>set (processJsonFiles this json jsonFiles).
      length c \<le> MAX_CHUNK_SIZE this \<or> (c \<in> ?E \<and> MAX_CHUNK_SIZE this < length c)"
    unfolding result by auto
  have "\<forall>e\<in>{} \<union> set (fileEntries json (sortedEntries jsonFiles)).
          MAX_CHUNK_SIZE this < length e \<longrightarrow> e \<in> set (chunks ?st) \<or> e = currentChunk ?st"
    by (rule fold_addFile_oversized) simp
  then have kept: "\<forall>e\<in>?E. MAX_CHUNK_SIZE this < length e \<longrightarrow>
      e \<in> set (processJsonFiles this json jsonFiles)"
    unfolding result by (auto simp: set_fileEntries_sorted)
  from bound kept show ?thesis
    by blast
qed

text \<open>
  C2, as stated: every input file's entry appears in the chunks. It fails for a \<open>.json\<close>
  file whose content does not parse: \<open>a.json\<close> below is in no chunk.
\<close>

theorem chunks_drop_unparseable_json_counterexample:
  "processJsonFiles ProfileAnalyzer_new jsonSample [(''a.json'', ''{''), (''b.json'', ''{}'')]
   = [''\<newline>\<newline>### FILE: b.json\<newline>\<newline>{}'']"
proof -
  have a: "formatEntry jsonSample ''a.json'' ''{'' = None"
    by (simp add: formatEntry_def formatContent_def jsonSample_def endsWith_def
        toLowerCase_def toLowerChar_def)
  have b: "formatEntry jsonSample ''b.json'' ''{}'' = Some ''\<newline>\<newline>### FILE: b.json\<newline>\<newline>{}''"
    by (simp add: formatEntry_def formatContent_def jsonSample_def endsWith_def
        toLowerCase_def toLowerChar_def)
  show ?thesis
    by (simp add: processJsonFiles_def sortedEntries_def addFile_def a b ProfileAnalyzer_new_def)
qed

text \<open>
  C2, amended. The files that are packed are those whose entry can be formatted (every
  file that is not \<open>.json\<close>, and every \<open>.json\<close> file whose content parses); a \<open>.json\<close>
  file that does not parse is skipped. The chunks are the concatenations of consecutive
  groups of whole entries, and the groups together hold the entry of each packed file
  exactly once: in packing order they are the entries of the sorted files, which as a
  multiset are the entries of the input files.
\<close>

theorem chunks_partition_entries:
  "\<exists>groups. processJsonFiles this json jsonFiles = map concat groups
      \<and> concat groups = fileEntries json (sortedEntries jsonFiles)
      \<and> mset (concat groups) = mset (fileEntries json jsonFiles)"
proof -
  obtain groups where g: "processJsonFiles this json jsonFiles = map concat groups"
      "concat groups = fileEntries json (sortedEntries jsonFiles)"
    using processJsonFiles_groups by blast
  have "mset (concat groups) = mset (fileEntries json jsonFiles)"
    by (simp only: g(2) mset_fileEntries_sorted)
  with g show ?thesis
    by blast
qed

lemma html_not_json:
  "endsWith s ''.html'' \<Longrightarrow> \<not> endsWith s ''.json''"
  by (auto simp: endsWith_def)

lemma formatContent_html:
  assumes "endsWith (toLowerCase filename) ''.html''" and "50000 < length content"
  shows "formatContent json filename content = Some (take 50000 content @ truncationNotice)"
  using assms by (simp add: formatContent_def html_not_json)

lemma formatEntry_html:
  assumes "endsWith (toLowerCase filename) ''.html''" and "50000 < length content"
  shows "formatEntry json filename content =
           Some (''\<newline>\<newline>### FILE: '' @ filename @ ''\<newline>\<newline>''
                 @ take 50000 content @ truncationNotice)"
  using assms by (simp add: formatEntry_def formatContent_html)

lemma fileEntries_member:
  "(filename, content) \<in> set files \<Longrightarrow> formatEntry json filename content = Some e \<Longrightarrow>
     e \<in> set (fileEntries json files)"
  by (force simp: fileEntries_def map_filter_def)

lemma sublist_concat_member: "e \<in> set g \<Longrightarrow> sublist e (concat g)"
proof -
  assume "e \<in> set g"
  then obtain g1 g2 where "g = g1 @ e # g2"
    by (meson split_list)
  then have "concat g = concat g1 @ e @ concat g2"
    by simp
  then show ?thesis
    by (metis sublist_appendI)
qed

lemma entry_in_some_chunk:
  assumes "e \<in> set (fileEntries json jsonFiles)"
  shows "\<exists>c\<in>set (processJsonFiles this json jsonFiles). sublist e c"
proof -
  obtain groups where g: "processJsonFiles this json jsonFiles = map concat groups"
      "concat groups = fileEntries json (sortedEntries jsonFiles)"
    using processJsonFiles_groups by blast
  have "e \<in> set (concat groups)"
    using assms by (simp add: g(2) set_fileEntries_sorted)
  then obtain grp where "grp \<in> set groups" "e \<in> set grp"
    by auto
  then have "concat grp \<in> set (processJsonFiles this json jsonFiles)" "sublist e (concat grp)"
    by (simp_all add: g(1) sublist_concat_member)
  then show ?thesis
    by blast
qed

text \<open>
  C10, amended. For a file whose lower-cased name ends in \<open>.html\<close> and whose content is
  longer than 50000 characters, the entry is the header followed by the first 50000
  characters of the content and the truncation notice; that entry lies in one chunk; and
  the truncated text still starts with the whole original content only when what was cut
  off is itself a prefix of the notice.
\<close>

theorem html_truncated:
  assumes "endsWith (toLowerCase filename) ''.html''" and "50000 < length content"
    and "(filename, content) \<in> set jsonFiles"
  shows "formatEntry json filename content =
           Some (''\<newline>\<newline>### FILE: '' @ filename @ ''\<newline>\<newline>''
                 @ take 50000 content @ truncationNotice)
         \<and> (\<exists>c\<in>set (processJsonFiles this json jsonFiles).
               sublist (''\<newline>\<newline>### FILE: '' @ filename @ ''\<newline>\<newline>''
                        @ take 50000 content @ truncationNotice) c)
         \<and> (prefix content (take 50000 content @ truncationNotice)
              \<longleftrightarrow> prefix (drop 50000 content) truncationNotice)"
proof -
  let ?e = "''\<newline>\<newline>### FILE: '' @ filename @ ''\<newline>\<newline>'' @ take 50000 content @ truncationNotice"
  have e: "formatEntry json filename content = Some ?e"
    using assms(1,2) by (rule formatEntry_html)
  have "?e \<in> set (fileEntries json jsonFiles)"
    using assms(3) e by (rule fileEntries_member)
  then have c: "\<exists>c\<in>set (processJsonFiles this json jsonFiles). sublist ?e c"
    by (rule entry_in_some_chunk)
  have "prefix (take 50000 content @ drop 50000 content) (take 50000 content @ truncationNotice)
          \<longleftrightarrow> prefix (drop 50000 content) truncationNotice"
    by (rule same_prefix_prefix)
  then have p: "prefix content (take 50000 content @ truncationNotice)
          \<longleftrightarrow> prefix (drop 50000 content) truncationNotice"
    by simp
  from e c p show ?thesis
    by blast
qed

lemma page_html_name: "endsWith (toLowerCase ''page.html'') ''.html''"
  by (simp add: endsWith_def toLowerCase_def toLowerChar_def)

text \<open>C10 on a page of 50001 letters: the entry does not start with the whole content.\<close>

theorem html_truncated_witness:
  "formatEntry jsonSample ''page.html'' (replicate 50001 (CHR ''a'')) =
     Some (''\<newline>\<newline>### FILE: page.html\<newline>\<newline>'' @ replicate 50000 (CHR ''a'') @ truncationNotice)
   \<and> (\<exists>c\<in>set (processJsonFiles ProfileAnalyzer_new jsonSample [(''page.html'', replicate 50001 (CHR ''a''))]).
         sublist (''\<newline>\<newline>### FILE: page.html\<newline>\<newline>'' @ replicate 50000 (CHR ''a'') @ truncationNotice) c)
   \<and> \<not> prefix (replicate 50001 (CHR ''a'')) (replicate 50000 (CHR ''a'') @ truncationNotice)"
proof -
  have p: "\<not> prefix (drop 50000 (replicate 50001 (CHR ''a''))) truncationNotice"
    by (simp add: truncationNotice_def)
  show ?thesis
    using html_truncated [of "''page.html''" "replicate 50001 (CHR ''a'')"
        "[(''page.html'', replicate 50001 (CHR ''a''))]" jsonSample ProfileAnalyzer_new] page_html_name p
    by simp
qed

text \<open>
  C10, as stated: the emitted entry does not contain the full original content. It fails
  for a page of 50000 letters and a final line break: the notice starts with a line
  break, so the chunk holds the whole content, followed by the rest of the notice.
\<close>

theorem html_truncated_counterexample:
  "50000 < length (replicate 50000 (CHR ''a'') @ ''\<newline>'')
   \<and> processJsonFiles ProfileAnalyzer_new jsonSample
        [(''page.html'', replicate 50000 (CHR ''a'') @ ''\<newline>'')]
      = [''\<newline>\<newline>### FILE: page.html\<newline>\<newline>'' @ (replicate 50000 (CHR ''a'') @ ''\<newline>'')
         @ ''\<newline>[Content truncated due to length...]'']
   \<and> sublist (replicate 50000 (CHR ''a'') @ ''\<newline>'')
        (''\<newline>\<newline>### FILE: page.html\<newline>\<newline>'' @ (replicate 50000 (CHR ''a'') @ ''\<newline>'')
         @ ''\<newline>[Content truncated due to length...]'')"
proof -
  have contained: "sublist (replicate 50000 (CHR ''a'') @ ''\<newline>'')
        (''\<newline>\<newline>### FILE: page.html\<newline>\<newline>'' @ (replicate 50000 (CHR ''a'') @ ''\<newline>'')
         @ ''\<newline>[Content truncated due to length...]'')"
    by (rule sublist_appendI)
  have "formatEntry jsonSample ''page.html'' (replicate 50000 (CHR ''a'') @ ''\<newline>'')
        = Some (''\<newline>\<newline>### FILE: page.html\<newline>\<newline>'' @ (replicate 50000 (CHR ''a'') @ ''\<newline>'')
         @ ''\<newline>[Content truncated due to length...]'')"
    using formatEntry_html [of "''page.html''" "replicate 50000 (CHR ''a'') @ ''\<newline>''" jsonSample] page_html_name
    by (simp add: truncationNotice_def)
  then have "processJsonFiles ProfileAnalyzer_new jsonSample
        [(''page.html'', replicate 50000 (CHR ''a'') @ ''\<newline>'')]
      = [''\<newline>\<newline>### FILE: page.html\<newline>\<newline>'' @ (replicate 50000 (CHR ''a'') @ ''\<newline>'')
         @ ''\<newline>[Content truncated due to length...]'']"
    by (simp add: processJsonFiles_def sortedEntries_def addFile_def ProfileAnalyzer_new_def)
  moreover have "50000 < length (replicate 50000 (CHR ''a'') @ ''\<newline>'')"
    by simp
  ultimately show ?thesis
    using contained by (intro conjI)
qed

text \<open>C6 on two files with a limit of 40: one chunk within the limit, one oversized entry.\<close>

theorem chunk_size_bound_witness:
  "processJsonFiles (ProfileAnalyzer_new\<lparr>MAX_CHUNK_SIZE := 40\<rparr>) jsonSample
       [(''c.txt'', ''0123456789012345678901234567890123456789''), (''b.html'', ''hello'')]
     = [''\<newline>\<newline>### FILE: b.html\<newline>\<newline>hello'',
        ''\<newline>\<newline>### FILE: c.txt\<newline>\<newline>0123456789012345678901234567890123456789'']
   \<and> length ''\<newline>\<newline>### FILE: b.html\<newline>\<newline>hello'' \<le> 40
   \<and> 40 < length ''\<newline>\<newline>### FILE: c.txt\<newline>\<newline>0123456789012345678901234567890123456789''
   \<and> ''\<newline>\<newline>### FILE: c.txt\<newline>\<newline>0123456789012345678901234567890123456789''
        \<in> set (fileEntries jsonSample
             [(''c.txt'', ''0123456789012345678901234567890123456789''), (''b.html'', ''hello'')])"
proof -
  have b: "formatEntry jsonSample ''b.html'' ''hello'' = Some ''\<newline>\<newline>### FILE: b.html\<newline>\<newline>hello''"
    by (simp add: formatEntry_def formatContent_def endsWith_def toLowerCase_def toLowerChar_def)
  have c: "formatEntry jsonSample ''c.txt'' ''0123456789012345678901234567890123456789''
      = Some ''\<newline>\<newline>### FILE: c.txt\<newline>\<newline>0123456789012345678901234567890123456789''"
    by (simp add: formatEntry_def formatContent_def endsWith_def toLowerCase_def toLowerChar_def)
  show ?thesis
    using chunk_size_bound [of "ProfileAnalyzer_new\<lparr>MAX_CHUNK_SIZE := 40\<rparr>" jsonSample
        "[(''c.txt'', ''0123456789012345678901234567890123456789''), (''b.html'', ''hello'')]"]
    by (simp add: processJsonFiles_def sortedEntries_def addFile_def ProfileAnalyzer_new_def
        fileEntries_Cons fileEntries_Nil b c)
qed

section \<open>The selector\<close>

text \<open>
  C4, as stated: a named profile without patterns fails open. It fails for a profile
  whose \<open>data\<close> list is present and empty: the profile counts as found and nothing is
  selected.
\<close>

theorem selector_empty_data_counterexample:
  "selectDataForPrompt (Some \<lparr>prompts = Some [\<lparr>name = ''minimal'', data = Some []\<rparr>]\<rparr>)
      ''minimal'' [(''data/a.json'', ''{}'')]
   = \<lparr>selectedData = [], usedFiles = [], configFound = True, totalFiles = 1,
      selectedCount = Some 0, patterns = Some []\<rparr>"
  by (simp add: selectDataForPrompt_def)

text \<open>
  C4, amended. When no profile of the configuration has the requested name, or the first
  profile with that name has no \<open>data\<close> field, the selector returns the whole input:
  \<open>selectedData\<close> is the input, \<open>usedFiles\<close> lists all its paths and \<open>configFound\<close> is
  false.
\<close>

theorem selector_fails_open:
  assumes "(\<forall>p\<in>set profiles. name p \<noteq> promptName)
           \<or> (\<exists>p. find (\<lambda>p. name p = promptName) profiles = Some p \<and> data p = None)"
  shows "selectedData (selectDataForPrompt (Some \<lparr>prompts = Some profiles\<rparr>) promptName extractedData)
           = extractedData
         \<and> usedFiles (selectDataForPrompt (Some \<lparr>prompts = Some profiles\<rparr>) promptName extractedData)
           = map fst extractedData
         \<and> configFound (selectDataForPrompt (Some \<lparr>prompts = Some profiles\<rparr>) promptName extractedData)
           = False"
proof -
  have "selectDataForPrompt (Some \<lparr>prompts = Some profiles\<rparr>) promptName extractedData
          = useAllData extractedData"
    using assms
  proof
    assume "\<forall>p\<in>set profiles. name p \<noteq> promptName"
    then have "find (\<lambda>p. name p = promptName) profiles = None"
      by (simp add: find_None_iff)
    then show ?thesis
      by (simp add: selectDataForPrompt_def)
  next
    assume "\<exists>p. find (\<lambda>p. name p = promptName) profiles = Some p \<and> data p = None"
    then show ?thesis
      by (auto simp: selectDataForPrompt_def)
  qed
  then show ?thesis
    by (simp add: useAllData_def)
qed

text \<open>
  C4 on a profile without \<open>data\<close>, and on a name that the configuration does not have.
\<close>

theorem selector_fails_open_witness:
  "selectedData (selectDataForPrompt (Some \<lparr>prompts = Some [\<lparr>name = ''minimal'', data = None\<rparr>]\<rparr>)
       ''minimal'' [(''data/a.json'', ''{}'')]) = [(''data/a.json'', ''{}'')]
   \<and> usedFiles (selectDataForPrompt (Some \<lparr>prompts = Some [\<lparr>name = ''minimal'', data = None\<rparr>]\<rparr>)
       ''minimal'' [(''data/a.json'', ''{}'')]) = [''data/a.json'']
   \<and> configFound (selectDataForPrompt (Some \<lparr>prompts = Some [\<lparr>name = ''minimal'', data = None\<rparr>]\<rparr>)
       ''minimal'' [(''data/a.json'', ''{}'')]) = False
   \<and> usedFiles (selectDataForPrompt (Some \<lparr>prompts = Some [\<lparr>name = ''minimal'', data = Some [''ads'']\<rparr>]\<rparr>)
       ''other'' [(''data/a.json'', ''{}'')]) = [''data/a.json'']"
  using selector_fails_open [of "[\<lparr>name = ''minimal'', data = None\<rparr>]" "''minimal''" "[(''data/a.json'', ''{}'')]"]
    selector_fails_open [of "[\<lparr>name = ''minimal'', data = Some [''ads'']\<rparr>]" "''other''" "[(''data/a.json'', ''{}'')]"]
  by simp

lemma sample_matches: "matchesPattern ''data/ads_information/prefs.json'' ''ads_information'' = True"
  "matchesPattern ''data/ads_information/prefs.json'' ''ads_information/prefs.json'' = True"
  "matchesPattern ''data/other/x.json'' ''ads_information'' = False"
  "matchesPattern ''data/other/x.json'' ''ads_information/prefs.json'' = False"
  by code_simp+

text \<open>
  C5. \<open>usedFiles\<close> is meant to hold each selected path once. The guard against
  duplicates tests the stored content for truthiness, not the key for presence: a file
  with empty content that a folder pattern and a file pattern both match is appended
  twice, so \<open>usedFiles\<close> has a duplicate and two elements for the one key of
  \<open>selectedData\<close>.
\<close>

theorem selector_duplicate_usedFiles:
  "selectDataForPrompt
      (Some \<lparr>prompts = Some [\<lparr>name = ''minimal'',
                               data = Some [''ads_information'', ''ads_information/prefs.json'']\<rparr>]\<rparr>)
      ''minimal'' [(''data/ads_information/prefs.json'', ''''), (''data/other/x.json'', ''{}'')]
   = \<lparr>selectedData = [(''data/ads_information/prefs.json'', '''')],
      usedFiles = [''data/ads_information/prefs.json'', ''data/ads_information/prefs.json''],
      configFound = True, totalFiles = 2, selectedCount = Some 2,
      patterns = Some [''ads_information'', ''ads_information/prefs.json'']\<rparr>"
  by (simp add: selectDataForPrompt_def processPattern_def selectFile_def truthy_def sample_matches)

section \<open>The retry loop\<close>

lemma retryLoop_attempts:
  "retries \<le> MAX_RETRIES this \<Longrightarrow>
     retries < attempts (retryLoop this net retries lastError slept)
     \<and> attempts (retryLoop this net retries lastError slept) \<le> MAX_RETRIES this + 1"
proof (induction this net retries lastError slept rule: retryLoop.induct)
  case (1 this net retries lastError slept)
  show ?case
  proof (cases "attempt (net retries)")
    case (Inr generatedText)
    then show ?thesis
      using "1.prems" by (simp add: retryLoop.simps [of this net retries])
  next
    case (Inl err)
    show ?thesis
    proof (cases "retries + 1 \<le> MAX_RETRIES this")
      case True
      then show ?thesis
        using "1.IH" [OF "1.prems" Inl True] "1.prems" Inl
        by (simp add: retryLoop.simps [of this net retries])
    next
      case False
      then show ?thesis
        using "1.prems" Inl by (simp add: retryLoop.simps [of this net retries])
    qed
  qed
qed

lemma retryLoop_delays:
  "retries \<le> MAX_RETRIES this \<Longrightarrow>
     delays (retryLoop this net retries lastError slept) =
       slept @ map (\<lambda>k. RETRY_DELAY this * 2 ^ (k - 1))
                 [retries + 1..<attempts (retryLoop this net retries lastError slept)]"
proof (induction this net retries lastError slept rule: retryLoop.induct)
  case (1 this net retries lastError slept)
  show ?case
  proof (cases "attempt (net retries)")
    case (Inr generatedText)
    then show ?thesis
      using "1.prems" by (simp add: retryLoop.simps [of this net retries])
  next
    case (Inl err)
    show ?thesis
    proof (cases "retries + 1 \<le> MAX_RETRIES this")
      case True
      let ?r = "retryLoop this net (retries + 1) (Some err)
                  (slept @ [RETRY_DELAY this * 2 ^ (retries + 1 - 1)])"
      have unfold: "retryLoop this net retries lastError slept = ?r"
        using "1.prems" Inl True by (simp add: retryLoop.simps [of this net retries])
      have "retries + 1 < attempts ?r"
        using retryLoop_attempts [OF True] by blast
      then have "[retries + 1..<attempts ?r] = (retries + 1) # [retries + 1 + 1..<attempts ?r]"
        by (simp add: upt_conv_Cons)
      then show ?thesis
        using "1.IH" [OF "1.prems" Inl True True] by (simp add: unfold)
    next
      case False
      then show ?thesis
        using "1.prems" Inl by (simp add: retryLoop.simps [of this net retries])
    qed
  qed
qed

lemma retryLoop_outcome:
  "retries \<le> MAX_RETRIES this \<Longrightarrow>
     outcome (retryLoop this net retries lastError slept)
       = attempt (net (attempts (retryLoop this net retries lastError slept) - 1))
     \<and> (\<forall>k. retries \<le> k \<and> k < attempts (retryLoop this net retries lastError slept) - 1
            \<longrightarrow> isl (attempt (net k)))
     \<and> (isl (outcome (retryLoop this net retries lastError slept))
            \<longrightarrow> attempts (retryLoop this net retries lastError slept) = MAX_RETRIES this + 1)"
proof (induction this net retries lastError slept rule: retryLoop.induct)
  case (1 this net retries lastError slept)
  show ?case
  proof (cases "attempt (net retries)")
    case (Inr generatedText)
    then show ?thesis
      using "1.prems" by (auto simp add: retryLoop.simps [of this net retries])
  next
    case (Inl err)
    show ?thesis
    proof (cases "retries + 1 \<le> MAX_RETRIES this")
      case True
      let ?r = "retryLoop this net (retries + 1) (Some err)
                  (slept @ [RETRY_DELAY this * 2 ^ (retries + 1 - 1)])"
      have unfold: "retryLoop this net retries lastError slept = ?r"
        using "1.prems" Inl True by (simp add: retryLoop.simps [of this net retries])
      have ih: "outcome ?r = attempt (net (attempts ?r - 1))"
         "\<forall>k. retries + 1 \<le> k \<and> k < attempts ?r - 1 \<longrightarrow> isl (attempt (net k))"
         "isl (outcome ?r) \<longrightarrow> attempts ?r = MAX_RETRIES this + 1"
        using "1.IH" [OF "1.prems" Inl True True] by blast+
      have "\<forall>k. retries \<le> k \<and> k < attempts ?r - 1 \<longrightarrow> isl (attempt (net k))"
      proof (intro allI impI)
        fix k
        assume k: "retries \<le> k \<and> k < attempts ?r - 1"
        show "isl (attempt (net k))"
        proof (cases "k = retries")
          case True
          then show ?thesis by (simp add: Inl)
        next
          case False
          then show ?thesis using k ih(2) by simp
        qed
      qed
      then show ?thesis
        using ih(1,3) unfolding unfold by blast
    next
      case False
      then show ?thesis
        using "1.prems" Inl by (auto simp add: retryLoop.simps [of this net retries])
    qed
  qed
qed

lemma attempt_not_Null: "attempt r \<noteq> Inl Null"
  by (cases r) simp_all

lemma retryLoop_not_Null:
  assumes "retries \<le> MAX_RETRIES this"
  shows "outcome (retryLoop this net retries lastError slept) \<noteq> Inl Null"
proof -
  have "outcome (retryLoop this net retries lastError slept)
          = attempt (net (attempts (retryLoop this net retries lastError slept) - 1))"
    using retryLoop_outcome [OF assms] by (rule conjunct1)
  then show ?thesis
    by (simp only: attempt_not_Null not_False_eq_True)
qed

lemma retryLoop_cong:
  "(\<And>k. attempt (net k) = attempt (net' k)) \<Longrightarrow>
     retryLoop this net retries lastError slept = retryLoop this net' retries lastError slept"
proof (induction this net retries lastError slept rule: retryLoop.induct)
  case (1 this net retries lastError slept)
  show ?case
  proof (cases "retries \<le> MAX_RETRIES this")
    case False
    then show ?thesis
      by (simp add: retryLoop.simps [of this net retries] retryLoop.simps [of this net' retries])
  next
    case le: True
    show ?thesis
    proof (cases "attempt (net retries)")
      case (Inr generatedText)
      then show ?thesis
        using le "1.prems" [of retries]
        by (simp add: retryLoop.simps [of this net retries] retryLoop.simps [of this net' retries])
    next
      case (Inl err)
      show ?thesis
      proof (cases "retries + 1 \<le> MAX_RETRIES this")
        case True
        then show ?thesis
          using "1.IH" [OF le Inl True "1.prems"] le Inl "1.prems" [of retries]
          by (simp add: retryLoop.simps [of this net retries] retryLoop.simps [of this net' retries])
      next
        case False
        then show ?thesis
          using le Inl "1.prems" [of retries]
          by (simp add: retryLoop.simps [of this net retries] retryLoop.simps [of this net' retries])
      qed
    qed
  qed
qed

lemma attempt_choicesMissingAsThrow: "attempt (choicesMissingAsThrow r) = attempt r"
  by (cases r) simp_all

lemma generateProfile_cases:
  "(\<not> truthy (prompt this) \<and> (\<exists>msg. loadPromptOutcome e chunkIndex = Inl msg
       \<and> fst (generateProfile this e chunkData chunkIndex totalChunks)
           = \<lparr>outcome = Inl (Error msg), attempts = 0, delays = []\<rparr>))
   \<or> ((truthy (prompt this) \<or> \<not> isl (loadPromptOutcome e chunkIndex))
       \<and> fst (generateProfile this e chunkData chunkIndex totalChunks)
           = retryLoop this (fetchOutcome e chunkIndex) 0 None [])"
  by (cases "loadPromptOutcome e chunkIndex") (simp_all add: generateProfile_def)

lemma generateProfile_loaded:
  "truthy (prompt this) \<or> \<not> isl (loadPromptOutcome e chunkIndex) \<Longrightarrow>
     fst (generateProfile this e chunkData chunkIndex totalChunks)
       = retryLoop this (fetchOutcome e chunkIndex) 0 None []"
  by (cases "loadPromptOutcome e chunkIndex") (auto simp add: generateProfile_def)

lemma generateProfile_not_Null:
  "outcome (fst (generateProfile this e chunkData chunkIndex totalChunks)) \<noteq> Inl Null"
  using generateProfile_cases [of this e chunkIndex chunkData totalChunks]
    retryLoop_not_Null [of 0 this "fetchOutcome e chunkIndex" None "[]"]
  by auto

lemma generateProfile_attempts:
  "attempts (fst (generateProfile this e chunkData chunkIndex totalChunks)) \<le> MAX_RETRIES this + 1"
  using generateProfile_cases [of this e chunkIndex chunkData totalChunks]
    retryLoop_attempts [of 0 this "fetchOutcome e chunkIndex" None "[]"]
  by auto

lemma generateProfile_delays:
  "delays (fst (generateProfile this e chunkData chunkIndex totalChunks))
     = map (\<lambda>k. RETRY_DELAY this * 2 ^ (k - 1))
         [1..<attempts (fst (generateProfile this e chunkData chunkIndex totalChunks))]"
  using generateProfile_cases [of this e chunkIndex chunkData totalChunks]
    retryLoop_delays [of 0 this "fetchOutcome e chunkIndex" None "[]"]
  by auto

lemma generateProfile_choicesMissing:
  "generateProfile this (e\<lparr>fetchOutcome := \<lambda>i k. choicesMissingAsThrow (fetchOutcome e i k)\<rparr>)
      chunkData chunkIndex totalChunks
   = generateProfile this e chunkData chunkIndex totalChunks"
proof -
  have "retryLoop this (\<lambda>k. choicesMissingAsThrow (fetchOutcome e chunkIndex k)) 0 None []
        = retryLoop this (fetchOutcome e chunkIndex) 0 None []"
    by (rule retryLoop_cong) (rule attempt_choicesMissingAsThrow)
  then show ?thesis
    by (cases "loadPromptOutcome e chunkIndex") (simp_all add: generateProfile_def)
qed

text \<open>
  C7. With \<open>MAX_RETRIES = 3\<close> a submission makes at most 4 attempts; the sleeps are
  \<open>RETRY_DELAY * 2 ^ (k - 1)\<close> for the retries \<open>k = 1, 2, ...\<close> in order; a response
  without choices is handled exactly like an attempt that raises that error; and, once the
  prompt is available, every attempt but the last one failed, the result is the result of
  the last attempt, and the submission fails only after 4 attempts, with the error of the
  last one.
\<close>

theorem generateProfile_retry_policy:
  assumes "MAX_RETRIES this = 3"
  shows "attempts (fst (generateProfile this e chunkData chunkIndex totalChunks)) \<le> 4
    \<and> delays (fst (generateProfile this e chunkData chunkIndex totalChunks))
        = map (\<lambda>k. RETRY_DELAY this * 2 ^ (k - 1))
            [1..<attempts (fst (generateProfile this e chunkData chunkIndex totalChunks))]
    \<and> generateProfile this (e\<lparr>fetchOutcome := \<lambda>i k. choicesMissingAsThrow (fetchOutcome e i k)\<rparr>)
          chunkData chunkIndex totalChunks
        = generateProfile this e chunkData chunkIndex totalChunks
    \<and> (truthy (prompt this) \<or> \<not> isl (loadPromptOutcome e chunkIndex) \<longrightarrow>
          outcome (fst (generateProfile this e chunkData chunkIndex totalChunks))
            = attempt (fetchOutcome e chunkIndex
                (attempts (fst (generateProfile this e chunkData chunkIndex totalChunks)) - 1))
          \<and> (\<forall>k. k < attempts (fst (generateProfile this e chunkData chunkIndex totalChunks)) - 1
                 \<longrightarrow> isl (attempt (fetchOutcome e chunkIndex k)))
          \<and> (isl (outcome (fst (generateProfile this e chunkData chunkIndex totalChunks)))
                 \<longrightarrow> attempts (fst (generateProfile this e chunkData chunkIndex totalChunks)) = 4))"
proof -
  let ?G = "fst (generateProfile this e chunkData chunkIndex totalChunks)"
  have a: "attempts ?G \<le> 4"
    using generateProfile_attempts [of this e chunkData chunkIndex totalChunks] assms by simp
  have d: "delays ?G = map (\<lambda>k. RETRY_DELAY this * 2 ^ (k - 1)) [1..<attempts ?G]"
    by (rule generateProfile_delays)
  have c: "generateProfile this (e\<lparr>fetchOutcome := \<lambda>i k. choicesMissingAsThrow (fetchOutcome e i k)\<rparr>)
             chunkData chunkIndex totalChunks
           = generateProfile this e chunkData chunkIndex totalChunks"
    by (rule generateProfile_choicesMissing)
  have r: "truthy (prompt this) \<or> \<not> isl (loadPromptOutcome e chunkIndex) \<longrightarrow>
          outcome ?G = attempt (fetchOutcome e chunkIndex (attempts ?G - 1))
          \<and> (\<forall>k. k < attempts ?G - 1 \<longrightarrow> isl (attempt (fetchOutcome e chunkIndex k)))
          \<and> (isl (outcome ?G) \<longrightarrow> attempts ?G = 4)"
  proof
    assume "truthy (prompt this) \<or> \<not> isl (loadPromptOutcome e chunkIndex)"
    then have G: "?G = retryLoop this (fetchOutcome e chunkIndex) 0 None []"
      by (rule generateProfile_loaded)
    have R: "outcome ?G = attempt (fetchOutcome e chunkIndex (attempts ?G - 1))"
      "\<forall>k. 0 \<le> k \<and> k < attempts ?G - 1 \<longrightarrow> isl (attempt (fetchOutcome e chunkIndex k))"
      "isl (outcome ?G) \<longrightarrow> attempts ?G = MAX_RETRIES this + 1"
      unfolding G
      using retryLoop_outcome [OF le0, of this "fetchOutcome e chunkIndex" None "[]"] by blast+
    have early: "\<forall>k. k < attempts ?G - 1 \<longrightarrow> isl (attempt (fetchOutcome e chunkIndex k))"
      using R(2) by blast
    have "MAX_RETRIES this + 1 = 4"
      using assms by simp
    then have final: "isl (outcome ?G) \<longrightarrow> attempts ?G = 4"
      using R(3) by metis
    from R(1) early final
    show "outcome ?G = attempt (fetchOutcome e chunkIndex (attempts ?G - 1))
          \<and> (\<forall>k. k < attempts ?G - 1 \<longrightarrow> isl (attempt (fetchOutcome e chunkIndex k)))
          \<and> (isl (outcome ?G) \<longrightarrow> attempts ?G = 4)"
      by (intro conjI)
  qed
  from a d c r show ?thesis
    by (intro conjI)
qed

section \<open>The multi-chunk run\<close>






lemma try_not_Null: "fst (analyzeProfile_try this e json jsonFiles) \<noteq> Inl Null"
proof -
  let ?cs = "processJsonFiles this json jsonFiles"
  consider "length ?cs = 0" | "length ?cs = 1" | "2 \<le> length ?cs"
    by linarith
  then show ?thesis
  proof cases
    case 1
    then show ?thesis
      by (simp add: analyzeProfile_try_def)
  next
    case 2
    obtain sub this' where g: "generateProfile this e (?cs ! 0) 0 (Suc 0) = (sub, this')"
      by (cases "generateProfile this e (?cs ! 0) 0 (Suc 0)")
    have "outcome sub \<noteq> Inl Null"
      using generateProfile_not_Null [of this e "?cs ! 0" 0 "Suc 0"] by (simp add: g)
    then show ?thesis
      using 2 by (cases "outcome sub") (auto simp: analyzeProfile_try_def g Let_def)
  next
    case 3
    then show ?thesis
      by (auto simp: analyzeProfile_try_def Let_def)
  qed
qed

lemma sample_entries: "formatEntry jsonSample ''c.txt'' ''zzz'' = Some ''\<newline>\<newline>### FILE: c.txt\<newline>\<newline>zzz''"
  "formatEntry jsonSample ''b.txt'' ''yy'' = Some ''\<newline>\<newline>### FILE: b.txt\<newline>\<newline>yy''"
  "formatEntry jsonSample ''a.txt'' ''x'' = Some ''\<newline>\<newline>### FILE: a.txt\<newline>\<newline>x''"
  by (simp_all add: formatEntry_def formatContent_def endsWith_def toLowerCase_def toLowerChar_def)


lemma serverErrors_submission:
  "fst (generateProfile ProfileAnalyzer_new serverErrors chunkData 0 totalChunks)
     = \<lparr>outcome = Inl (Error ''OpenRouter API error: Status: 500 - boom''), attempts = 4,
        delays = [2000, 4000, 8000]\<rparr>"
  by (simp add: generateProfile_def ProfileAnalyzer_new_def serverErrors_def truthy_def retryLoop.simps)

text \<open>
  C7 on a server that answers three times without choices and then with status 500: four
  attempts, sleeps of 2, 4 and 8 seconds, and the error of the fourth attempt.
\<close>

theorem generateProfile_retry_policy_witness:
  "MAX_RETRIES ProfileAnalyzer_new = 3
   \<and> fst (generateProfile ProfileAnalyzer_new serverErrors ''data'' 0 1)
     = \<lparr>outcome = Inl (Error ''OpenRouter API error: Status: 500 - boom''), attempts = 4,
        delays = [2000, 4000, 8000]\<rparr>
   \<and> attempts (fst (generateProfile ProfileAnalyzer_new serverErrors ''data'' 0 1)) \<le> 4
   \<and> outcome (fst (generateProfile ProfileAnalyzer_new serverErrors ''data'' 0 1))
       = attempt (fetchOutcome serverErrors 0 3)"
proof -
  have m: "MAX_RETRIES ProfileAnalyzer_new = 3"
    by (simp add: ProfileAnalyzer_new_def)
  have l: "truthy (prompt ProfileAnalyzer_new) \<or> \<not> isl (loadPromptOutcome serverErrors 0)"
    by (simp add: serverErrors_def)
  have g: "fst (generateProfile ProfileAnalyzer_new serverErrors ''data'' 0 1)
     = \<lparr>outcome = Inl (Error ''OpenRouter API error: Status: 500 - boom''), attempts = 4,
        delays = [2000, 4000, 8000]\<rparr>"
    by (rule serverErrors_submission)
  have p: "attempts (fst (generateProfile ProfileAnalyzer_new serverErrors ''data'' 0 1)) \<le> 4"
    "outcome (fst (generateProfile ProfileAnalyzer_new serverErrors ''data'' 0 1))
       = attempt (fetchOutcome serverErrors 0
           (attempts (fst (generateProfile ProfileAnalyzer_new serverErrors ''data'' 0 1)) - 1))"
    using generateProfile_retry_policy [OF m, of serverErrors "''data''" 0 1] l by blast+
  have "attempts (fst (generateProfile ProfileAnalyzer_new serverErrors ''data'' 0 1)) - 1 = 3"
    unfolding g by simp
  with p(2) have "outcome (fst (generateProfile ProfileAnalyzer_new serverErrors ''data'' 0 1))
       = attempt (fetchOutcome serverErrors 0 3)"
    by (simp only:)
  with m g p(1) show ?thesis
    by (intro conjI)
qed

lemma three_chunks:
  "processJsonFiles oneFilePerChunk jsonSample threeFiles
     = [''\<newline>\<newline>### FILE: a.txt\<newline>\<newline>x'', ''\<newline>\<newline>### FILE: b.txt\<newline>\<newline>yy'',
        ''\<newline>\<newline>### FILE: c.txt\<newline>\<newline>zzz'']"
  by (simp add: processJsonFiles_def sortedEntries_def addFile_def sample_entries ProfileAnalyzer_new_def
      oneFilePerChunk_def threeFiles_def)

lemma upt_three: "[0..<3] = [0, 1, 2]"
  by (simp add: upt_rec)

lemma oneFilePerChunk_fields:
  "MAX_RETRIES oneFilePerChunk = 3" "RETRY_DELAY oneFilePerChunk = 2000"
  "prompt oneFilePerChunk = None"
  by (simp_all add: oneFilePerChunk_def ProfileAnalyzer_new_def)

lemma threeFiles_length: "length threeFiles = 3"
  by (simp add: threeFiles_def)


text \<open>
  C1. The returned text is meant to be the output of the last chunk whose submission
  succeeded; when the last chunk fails, the code itself announces that it uses the most
  recent successful chunk. The output of a middle chunk is never stored, though: with
  chunks 1 and 2 returning \<open>A\<close> and \<open>B\<close> and chunk 3 failing all its retries, the run
  returns \<open>A\<close>, the output of chunk 1.
\<close>

theorem multi_chunk_last_fails_returns_first:
  "analyzeProfile oneFilePerChunk lastChunkFails jsonSample threeFiles
     = (Inr \<lparr>success = True, profile = Some ''A'', error = None,
             stats = Some \<lparr>filesProcessed = 3, chunksProcessed = 3, chunksSuccessful = 2,
                           chunksFailed = [3], profileLength = 1, wordCountOf = 1\<rparr>\<rparr>,
        [\<lparr>outcome = Inr ''A'', attempts = 1, delays = []\<rparr>,
         \<lparr>outcome = Inr ''B'', attempts = 1, delays = []\<rparr>,
         \<lparr>outcome = Inl (Error ''Failed to fetch''), attempts = 4, delays = [2000, 4000, 8000]\<rparr>])"
  by (simp add: analyzeProfile_def analyzeProfile_try_def three_chunks upt_three chunkStep_def
      generateProfile_def retryLoop.simps truthy_def analysisOf_def wordCount_def isWhiteSpace_def
      lastChunkFails_def oneFilePerChunk_fields threeFiles_length Let_def)






end
